theory Spec2Isabelle
  imports Main "HOL-Library.Sublist"
begin

section \<open>The parsed FB2 document\<close>

text \<open>
  \<^verbatim>\<open>converter.py\<close> works on the tree that \<^verbatim>\<open>BeautifulSoup(fb2_content, 'lxml-xml')\<close>
  returns. A node of that tree is a tag (name, attributes, children) or a string.
  The attribute keys are the qualified names as the parser stores them
  (\<^verbatim>\<open>l:href\<close> for an attribute written with the prefix \<^verbatim>\<open>l\<close>).
\<close>

datatype node =
    Tag string "(string \<times> string) list" "node list"
  | NavigableString string

text \<open>
  The source also walks upwards (\<^verbatim>\<open>find_parent\<close>), so an element is handled together
  with the names of its ancestors, nearest first. The soup object itself is the tag
  \<^verbatim>\<open>[document]\<close> with no ancestors.
\<close>

type_synonym element = "string list \<times> node"

definition BeautifulSoup_object :: "node list \<Rightarrow> element" where
  "BeautifulSoup_object roots = ([], Tag ''[document]'' [] roots)"

fun is_tag :: "node \<Rightarrow> bool" where
  "is_tag (Tag nm as cs) = True"
| "is_tag (NavigableString s) = False"

fun name :: "node \<Rightarrow> string" where
  "name (Tag nm as cs) = nm"
| "name (NavigableString s) = []"

fun attrs :: "node \<Rightarrow> (string \<times> string) list" where
  "attrs (Tag nm as cs) = as"
| "attrs (NavigableString s) = []"

text \<open>All nodes below a node, in document order, each with its ancestors.\<close>

fun descendants :: "string list \<Rightarrow> node \<Rightarrow> element list" where
  "descendants anc (NavigableString s) = []"
| "descendants anc (Tag nm as cs) =
     concat (map (\<lambda>c. (nm # anc, c) # descendants (nm # anc) c) cs)"

text \<open>\<^verbatim>\<open>tag.find_all(names)\<close>: the descendant tags with one of the names, in document order.\<close>

definition named :: "string list \<Rightarrow> element \<Rightarrow> bool" where
  "named names e = (is_tag (snd e) \<and> name (snd e) \<in> set names)"

definition find_all :: "string list \<Rightarrow> element \<Rightarrow> element list" where
  "find_all names e = filter (named names) (descendants (fst e) (snd e))"

text \<open>\<^verbatim>\<open>tag.find(name)\<close>: the first of them, or \<^verbatim>\<open>None\<close>.\<close>

definition find :: "string \<Rightarrow> element \<Rightarrow> element option" where
  "find nm e = (case find_all [nm] e of [] \<Rightarrow> None | x # xs \<Rightarrow> Some x)"

text \<open>\<^verbatim>\<open>tag.get(key, default)\<close>: the attribute's value, or the default VALUE.\<close>

definition get :: "element \<Rightarrow> string \<Rightarrow> string \<Rightarrow> string" where
  "get e key dflt = (case map_of (attrs (snd e)) key of Some v \<Rightarrow> v | None \<Rightarrow> dflt)"

text \<open>
  \<^verbatim>\<open>tag.find(name, {key: values})\<close>: the first descendant tag of that name whose
  attribute \<^verbatim>\<open>key\<close> has one of the values.
\<close>

definition find_attrs :: "string \<Rightarrow> string \<Rightarrow> string list \<Rightarrow> element \<Rightarrow> element option" where
  "find_attrs nm key vals e =
     (case filter (\<lambda>x. case map_of (attrs (snd x)) key of Some v \<Rightarrow> v \<in> set vals | None \<Rightarrow> False)
             (find_all [nm] e)
      of [] \<Rightarrow> None | x # xs \<Rightarrow> Some x)"

text \<open>\<^verbatim>\<open>tag.find_parent(name)\<close>, of which the source only tests whether it is \<^verbatim>\<open>None\<close>.\<close>

definition find_parent :: "string \<Rightarrow> element \<Rightarrow> bool" where
  "find_parent nm e = (nm \<in> set (fst e))"

text \<open>\<^verbatim>\<open>str.strip()\<close> and the characters it removes (code points below 256).\<close>

definition isspace :: "char \<Rightarrow> bool" where
  "isspace c = (of_char c \<in> set [9, 10, 11, 12, 13, 28, 29, 30, 31, 32, 133, 160 :: nat])"

definition strip :: "string \<Rightarrow> string" where
  "strip s = rev (dropWhile isspace (rev (dropWhile isspace s)))"

text \<open>
  The strings below a node, in document order. \<^verbatim>\<open>get_text()\<close> (and the property
  \<^verbatim>\<open>.text\<close>) joins them; \<^verbatim>\<open>get_text(strip=True)\<close> strips each one and drops those
  that become empty.
\<close>

fun strings :: "node \<Rightarrow> string list" where
  "strings (NavigableString s) = [s]"
| "strings (Tag nm as cs) = concat (map strings cs)"

definition get_text :: "element \<Rightarrow> string" where
  "get_text e = concat (strings (snd e))"

definition get_text_strip :: "element \<Rightarrow> string" where
  "get_text_strip e = concat (filter (\<lambda>s. s \<noteq> []) (map strip (strings (snd e))))"

section \<open>Content formatter\<close>

text \<open>\<^verbatim>\<open>process_paragraph\<close>\<close>

definition process_paragraph :: "element \<Rightarrow> string" where
  \<open>process_paragraph paragraph =
     (let p_text = get_text paragraph in
      if find ''emphasis'' paragraph \<noteq> None then ''<i>'' @ p_text @ ''</i>''
      else if find ''a'' paragraph \<noteq> None then ''''
      else p_text)\<close>

text \<open>
  The body of the loop of \<^verbatim>\<open>process_section_elements\<close>: what one element adds to
  \<^verbatim>\<open>content\<close>.
\<close>

definition section_element :: "element \<Rightarrow> string" where
  \<open>section_element element =
     (if name (snd element) = ''p'' \<and> \<not> find_parent ''title'' element then
        ''<p style="text-indent: 1em;">'' @ process_paragraph element @ ''</p>''
      else if name (snd element) = ''a'' then
        ''<a href="'' @ get element ''l:href'' ''href'' @ ''">'' @ get_text element @ ''</a>''
      else if name (snd element) = ''subtitle'' then
        ''<p style="text-indent: 1em;"><subtitle>'' @ get_text element @ ''</subtitle></p>''
      else '''')\<close>

text \<open>\<^verbatim>\<open>process_section_elements\<close>\<close>

definition process_section_elements :: "element \<Rightarrow> string" where
  "process_section_elements section =
     fold (\<lambda>element content. content @ section_element element)
       (find_all [''p'', ''a'', ''subtitle''] section) ''''"

section \<open>The book under construction\<close>

text \<open>
  The objects of \<^verbatim>\<open>ebooklib.epub\<close> that the converter builds: the items added with
  \<^verbatim>\<open>add_item\<close> (in the order added), the spine (the string \<^verbatim>\<open>'nav'\<close> or a chapter
  object), the table of contents (\<^verbatim>\<open>epub.Link(href, title, uid)\<close>) and the metadata set
  with \<^verbatim>\<open>set_identifier\<close>, \<^verbatim>\<open>set_title\<close>, \<^verbatim>\<open>set_language\<close>, \<^verbatim>\<open>add_author\<close>.
\<close>

datatype item =
    EpubHtml (title: string) (file_name: string) (content: string) (lang: string)
  | EpubCover string string
  | EpubCoverHtml string
  | EpubNcx
  | EpubNav

datatype spine_entry = Nav_marker | Item_ref item

datatype link = Link (href: string) (link_title: string) (uid: string)

record EpubBook =
  book_identifier :: string
  book_title :: string
  book_language :: string
  book_authors :: "string list"
  items :: "item list"
  spine :: "spine_entry list"
  toc :: "link list"

text \<open>\<^verbatim>\<open>epub.EpubBook()\<close> followed by \<^verbatim>\<open>set_identifier\<close>.\<close>

definition new_EpubBook :: "string \<Rightarrow> EpubBook" where
  "new_EpubBook ident =
     \<lparr>book_identifier = ident, book_title = [], book_language = ''en'', book_authors = [],
      items = [], spine = [], toc = []\<rparr>"

definition add_item :: "EpubBook \<Rightarrow> item \<Rightarrow> EpubBook" where
  "add_item book it = book\<lparr>items := items book @ [it]\<rparr>"

text \<open>\<^verbatim>\<open>set_cover(file_name, content, create_page=True)\<close>: the image and its page.\<close>

definition set_cover :: "EpubBook \<Rightarrow> string \<Rightarrow> string \<Rightarrow> EpubBook" where
  "set_cover book fname data =
     add_item (add_item book (EpubCover fname data)) (EpubCoverHtml fname)"

section \<open>Exceptions and the outside world\<close>

text \<open>
  An exception is a value. \<^verbatim>\<open>Raised c\<close> is an exception of class \<^verbatim>\<open>c\<close> raised inside
  a library call (the parser, \<^verbatim>\<open>base64\<close>, \<^verbatim>\<open>zipfile\<close>, \<^verbatim>\<open>open\<close>, \<^verbatim>\<open>write_epub\<close>);
  all of them derive from \<^verbatim>\<open>Exception\<close>.
\<close>

datatype exn = FileNotFoundError | ValueError | UnboundLocalError | Raised string

text \<open>An open \<^verbatim>\<open>zipfile.ZipFile\<close>: its listing and what reading a member gives.\<close>

record ZipFile =
  namelist :: "string list"
  zip_read :: "string \<Rightarrow> exn + string"

text \<open>
  What \<^verbatim>\<open>ebooklib.epub.write_epub(name, book, {})\<close> can do. It writes the package;
  or the writing of the file fails with an \<^verbatim>\<open>IOError\<close>, which \<^verbatim>\<open>write_epub\<close> catches
  itself, so that it returns normally and there is no package; or another exception
  leaves it.
\<close>

datatype write_outcome = Written | Not_written | Write_raised exn

fun exception_of :: "write_outcome \<Rightarrow> exn option" where
  "exception_of Written = None"
| "exception_of Not_written = None"
| "exception_of (Write_raised e) = Some e"

text \<open>
  What the converter calls outside itself. \<^verbatim>\<open>parse_xml\<close> gives the top-level nodes
  of the parsed document, or the exception the parser raises.
\<close>

record world =
  path_exists :: "string \<Rightarrow> bool"
  read_file :: "string \<Rightarrow> exn + string"
  open_zip :: "string \<Rightarrow> exn + ZipFile"
  parse_xml :: "string \<Rightarrow> exn + node list"
  b64decode :: "string \<Rightarrow> exn + string"
  uuid4 :: string
  write_epub :: "string \<Rightarrow> EpubBook \<Rightarrow> write_outcome"

section \<open>Cover, metadata, annotation, chapters\<close>

text \<open>\<^verbatim>\<open>extract_cover_image\<close>; its \<^verbatim>\<open>except Exception\<close> only logs a warning.\<close>

definition extract_cover_image :: "world \<Rightarrow> element \<Rightarrow> EpubBook \<Rightarrow> EpubBook" where
  "extract_cover_image w soup epub_book =
     (case find_attrs ''binary'' ''content-type'' [''image/jpeg'', ''image/jpg''] soup of
        None \<Rightarrow> epub_book
      | Some cover_image_tag \<Rightarrow>
          (let cover_data = strip (get_text cover_image_tag) in
           case b64decode w cover_data of
             Inl e \<Rightarrow> epub_book
           | Inr cover_image_data \<Rightarrow> set_cover epub_book ''cover.jpg'' cover_image_data))"

text \<open>\<^verbatim>\<open>sep.join(parts)\<close>\<close>

fun join :: "string \<Rightarrow> string list \<Rightarrow> string" where
  "join sep [] = []"
| "join sep [x] = x"
| "join sep (x # y # ys) = x @ sep @ join sep (y # ys)"

text \<open>
  \<^verbatim>\<open>extract_metadata\<close>. The source computes \<^verbatim>\<open>language\<close> and returns
  \<^verbatim>\<open>title, authors, annotation\<close>.
\<close>

definition author_name :: "element \<Rightarrow> string" where
  "author_name author =
     join '' '' (List.map_filter (\<lambda>tag. map_option get_text (find tag author))
                   [''first-name'', ''middle-name'', ''last-name''])"

definition extract_metadata :: "element \<Rightarrow> string \<times> string list \<times> element option" where
  "extract_metadata soup =
     (case find ''title-info'' soup of
        None \<Rightarrow> (''Unknown Title'', [], None)
      | Some title_info \<Rightarrow>
          (let title_tag = find ''book-title'' title_info;
               ttl = (case title_tag of Some t \<Rightarrow> get_text t | None \<Rightarrow> ''Unknown Title'');
               lang_tag = find ''lang'' title_info;
               language = (case lang_tag of Some l \<Rightarrow> get_text l | None \<Rightarrow> ''en'');
               author_tags = find_all [''author''] title_info;
               authors = map author_name author_tags;
               annotation = find ''annotation'' title_info
           in (ttl, authors, annotation)))"

text \<open>
  \<^verbatim>\<open>add_annotation_to_book\<close>: returns the chapter (or \<^verbatim>\<open>None\<close>) and the book it
  changed.
\<close>

definition add_annotation_to_book :: "EpubBook \<Rightarrow> element option \<Rightarrow> item option \<times> EpubBook" where
  "add_annotation_to_book book annotation_content =
     (case annotation_content of
        None \<Rightarrow> (None, book)
      | Some a \<Rightarrow>
          (let processed_annotation = process_section_elements a;
               annotation_content_with_title = ''<h1>Annotation</h1>'' @ processed_annotation;
               annotation_chapter =
                 EpubHtml ''Annotation'' ''annotation.xhtml'' annotation_content_with_title ''en'';
               book1 = add_item book annotation_chapter;
               book2 = book1\<lparr>spine := Item_ref annotation_chapter # spine book1\<rparr>
           in (Some annotation_chapter, book2)))"

text \<open>\<^verbatim>\<open>f'{n}'\<close> for a count: its decimal digits (\<^verbatim>\<open>digit\<close> is only applied below 10).\<close>

definition digit :: "nat \<Rightarrow> char" where
  "digit d = ''0123456789'' ! d"

fun str_nat :: "nat \<Rightarrow> string" where
  "str_nat n =
     (if n < 10 then [digit n]
      else str_nat (n div 10) @ [digit (n mod 10)])"

declare str_nat.simps [simp del]

text \<open>
  \<^verbatim>\<open>create_epub_chapters\<close>. The local variables \<^verbatim>\<open>toc\<close>, \<^verbatim>\<open>spine\<close>,
  \<^verbatim>\<open>chapter_count\<close> and the book are the state of the two nested loops;
  \<^verbatim>\<open>chapter_step\<close> is the body of the inner one.
\<close>

type_synonym chapters_state = "link list \<times> spine_entry list \<times> nat \<times> EpubBook"

definition chapter_step :: "element \<Rightarrow> chapters_state \<Rightarrow> chapters_state" where
  "chapter_step section st =
     (case st of (toc0, spine0, count0, epub_book) \<Rightarrow>
        (let chapter_count = count0 + 1;
             section_title = (case find ''title'' section of
                                Some t \<Rightarrow> get_text_strip t
                              | None \<Rightarrow> ''Chapter '' @ str_nat chapter_count);
             cont = process_section_elements section;
             chapter_file_name = ''chapter_'' @ str_nat chapter_count @ ''.xhtml'';
             epub_chapter = EpubHtml section_title chapter_file_name
                              (''<h1>'' @ section_title @ ''</h1>'' @ cont) ''en''
         in (toc0 @ [Link chapter_file_name section_title (''chapter_'' @ str_nat chapter_count)],
             spine0 @ [Item_ref epub_chapter],
             chapter_count,
             add_item epub_book epub_chapter)))"

definition create_epub_chapters :: "element \<Rightarrow> EpubBook \<Rightarrow> link list \<times> EpubBook" where
  "create_epub_chapters soup epub_book =
     (case fold (\<lambda>body st. fold chapter_step (find_all [''section''] body) st)
             (find_all [''body''] soup) ([], [Nav_marker], 0, epub_book)
      of (toc1, spine1, count1, book1) \<Rightarrow> (toc1, book1\<lparr>spine := spine1\<rparr>))"

section \<open>One conversion\<close>

text \<open>
  \<^verbatim>\<open>convert_fb2_to_epub\<close> from \<^verbatim>\<open>extract_metadata\<close> to the last \<^verbatim>\<open>add_item\<close>:
  the book that is handed to \<^verbatim>\<open>write_epub\<close>.
\<close>

definition fb2_book :: "world \<Rightarrow> element \<Rightarrow> EpubBook" where
  "fb2_book w soup =
     (case extract_metadata soup of (ttl, authors, annotation_content) \<Rightarrow>
        (let book0 = new_EpubBook (uuid4 w);
             book1 = book0\<lparr>book_title := ttl\<rparr>;
             book2 = book1\<lparr>book_language := ''en''\<rparr>;
             book3 = fold (\<lambda>author b. b\<lparr>book_authors := book_authors b @ [author]\<rparr>) authors book2;
             book4 = extract_cover_image w soup book3
         in case create_epub_chapters soup book4 of (chapters_toc, book5) \<Rightarrow>
              (let book6 = fold (\<lambda>l b. b\<lparr>toc := toc b @ [l]\<rparr>) chapters_toc book5
               in case add_annotation_to_book book6 annotation_content of
                    (annotation_chapter, book7) \<Rightarrow>
                      (let book8 = (case annotation_chapter of
                                      None \<Rightarrow> book7
                                    | Some ch \<Rightarrow>
                                        book7\<lparr>toc := Link (file_name ch) (title ch) ''annotation''
                                                       # toc book7,
                                              spine := Item_ref ch # spine book7\<rparr>)
                       in add_item (add_item book8 EpubNcx) EpubNav))))"

text \<open>
  \<^verbatim>\<open>convert_fb2_to_epub\<close>: \<^verbatim>\<open>None\<close> when it returns, the exception when it raises.
  It returns also when \<^verbatim>\<open>write_epub\<close> did not write the package.
\<close>

definition convert_fb2_to_epub :: "world \<Rightarrow> string \<Rightarrow> string \<Rightarrow> exn option" where
  "convert_fb2_to_epub w fb2_content output_path =
     (case parse_xml w fb2_content of
        Inl e \<Rightarrow> Some e
      | Inr roots \<Rightarrow> exception_of (write_epub w output_path (fb2_book w (BeautifulSoup_object roots))))"

section \<open>Paths\<close>

text \<open>
  \<^verbatim>\<open>str.rfind\<close> for one character, \<^verbatim>\<open>os.path.basename\<close> and \<^verbatim>\<open>os.path.splitext\<close>
  as \<^verbatim>\<open>posixpath\<close> defines them, \<^verbatim>\<open>str.endswith\<close>.
\<close>

fun rfind :: "string \<Rightarrow> char \<Rightarrow> int" where
  "rfind [] c = - 1"
| "rfind (x # xs) c =
     (let r = rfind xs c in if 0 \<le> r then r + 1 else if x = c then 0 else - 1)"

definition basename :: "string \<Rightarrow> string" where
  "basename p = drop (nat (rfind p CHR ''/'' + 1)) p"

definition splitext :: "string \<Rightarrow> string \<times> string" where
  "splitext p =
     (let sepIndex = rfind p CHR ''/'';
          dotIndex = rfind p CHR ''.''
      in if sepIndex < dotIndex \<and>
            list_ex (\<lambda>c. c \<noteq> CHR ''.'')
              (take (nat (dotIndex - (sepIndex + 1))) (drop (nat (sepIndex + 1)) p))
         then (take (nat dotIndex) p, drop (nat dotIndex) p)
         else (p, []))"

definition endswith :: "string \<Rightarrow> string \<Rightarrow> bool" where
  "endswith s suf = (length suf \<le> length s \<and> drop (length s - length suf) s = suf)"

section \<open>The two entry points\<close>

text \<open>
  \<^verbatim>\<open>convert_file\<close>. The \<^verbatim>\<open>try\<close> block either binds \<^verbatim>\<open>output_path\<close> or not before
  it ends (normally or by an exception, which \<^verbatim>\<open>except Exception\<close> logs);
  \<^verbatim>\<open>return output_path\<close> then reads the variable, and raises
  \<^verbatim>\<open>UnboundLocalError\<close> when it was never bound.
\<close>

definition convert_file_try :: "world \<Rightarrow> string \<Rightarrow> string option \<times> exn option" where
  "convert_file_try w fb2_path =
     (if \<not> path_exists w fb2_path then (None, Some FileNotFoundError)
      else case read_file w fb2_path of
             Inl e \<Rightarrow> (None, Some e)
           | Inr fb2_content \<Rightarrow>
               (let base_name = fst (splitext (basename fb2_path));
                    output_path = base_name @ ''.epub''
                in (Some output_path, convert_fb2_to_epub w fb2_content output_path)))"

definition convert_file :: "world \<Rightarrow> string \<Rightarrow> exn + string" where
  "convert_file w fb2_path =
     (case convert_file_try w fb2_path of (output_path, raised) \<Rightarrow>
        (case output_path of None \<Rightarrow> Inl UnboundLocalError | Some p \<Rightarrow> Inr p))"

text \<open>
  \<^verbatim>\<open>convert_archive\<close>. The loop over the entries runs inside the one \<^verbatim>\<open>try\<close>
  block of the function: an exception leaves the loop with \<^verbatim>\<open>epub_files\<close> as it
  is.
\<close>

fun convert_entries :: "world \<Rightarrow> ZipFile \<Rightarrow> string list \<Rightarrow> string list \<Rightarrow> string list \<times> exn option" where
  "convert_entries w zip_ref [] epub_files = (epub_files, None)"
| "convert_entries w zip_ref (fb2_file_name # rest) epub_files =
     (case zip_read zip_ref fb2_file_name of
        Inl e \<Rightarrow> (epub_files, Some e)
      | Inr fb2_content \<Rightarrow>
          (let base_name = fst (splitext fb2_file_name);
               output_path = base_name @ ''.epub''
           in case convert_fb2_to_epub w fb2_content output_path of
                Some e \<Rightarrow> (epub_files, Some e)
              | None \<Rightarrow> convert_entries w zip_ref rest (epub_files @ [output_path])))"

definition fb2_files :: "ZipFile \<Rightarrow> string list" where
  "fb2_files zip_ref = filter (\<lambda>f. endswith f ''.fb2'') (namelist zip_ref)"

definition convert_archive_try :: "world \<Rightarrow> string \<Rightarrow> string list \<times> exn option" where
  "convert_archive_try w zip_path =
     (if \<not> path_exists w zip_path then ([], Some FileNotFoundError)
      else case open_zip w zip_path of
             Inl e \<Rightarrow> ([], Some e)
           | Inr zip_ref \<Rightarrow>
               if fb2_files zip_ref = [] then ([], Some ValueError)
               else convert_entries w zip_ref (fb2_files zip_ref) [])"

definition convert_archive :: "world \<Rightarrow> string \<Rightarrow> exn + string list" where
  "convert_archive w zip_path =
     (case convert_archive_try w zip_path of (epub_files, raised) \<Rightarrow> Inr epub_files)"

section \<open>Derived notions and example inputs\<close>

text \<open>
  The chapter that \<^verbatim>\<open>create_epub_chapters\<close> makes from a section when the counter
  has reached \<open>k\<close> (lines 90 to 98 of the source), its link in the table of contents,
  and the sections the two loops visit, in the order visited.
\<close>

definition chapter_title :: "nat \<Rightarrow> element \<Rightarrow> string" where
  "chapter_title k section =
     (case find ''title'' section of
        Some t \<Rightarrow> get_text_strip t
      | None \<Rightarrow> ''Chapter '' @ str_nat k)"

definition chapter_of :: "nat \<Rightarrow> element \<Rightarrow> item" where
  "chapter_of k section =
     EpubHtml (chapter_title k section) (''chapter_'' @ str_nat k @ ''.xhtml'')
       (''<h1>'' @ chapter_title k section @ ''</h1>'' @ process_section_elements section) ''en''"

definition chapter_link :: "nat \<Rightarrow> element \<Rightarrow> link" where
  "chapter_link k section =
     Link (''chapter_'' @ str_nat k @ ''.xhtml'') (chapter_title k section) (''chapter_'' @ str_nat k)"

definition walked_sections :: "element \<Rightarrow> element list" where
  "walked_sections soup = concat (map (find_all [''section'']) (find_all [''body''] soup))"

text \<open>What \<^verbatim>\<open>extract_cover_image\<close> adds to the items of the book.\<close>

definition cover_items :: "world \<Rightarrow> element \<Rightarrow> item list" where
  "cover_items w soup =
     (case find_attrs ''binary'' ''content-type'' [''image/jpeg'', ''image/jpg''] soup of
        None \<Rightarrow> []
      | Some cover_image_tag \<Rightarrow>
          (case b64decode w (strip (get_text cover_image_tag)) of
             Inl e \<Rightarrow> []
           | Inr cover_image_data \<Rightarrow>
               [EpubCover ''cover.jpg'' cover_image_data, EpubCoverHtml ''cover.jpg'']))"

text \<open>The cover image and the cover page among the items.\<close>

definition is_cover_item :: "item \<Rightarrow> bool" where
  "is_cover_item it = (is_EpubCover it \<or> is_EpubCoverHtml it)"

text \<open>
  The annotation that \<^verbatim>\<open>extract_metadata\<close> returns and the page that
  \<^verbatim>\<open>add_annotation_to_book\<close> makes from it.
\<close>

definition annotation_of :: "element \<Rightarrow> element option" where
  "annotation_of soup =
     (case find ''title-info'' soup of None \<Rightarrow> None | Some title_info \<Rightarrow> find ''annotation'' title_info)"

definition annotation_page :: "element \<Rightarrow> item" where
  "annotation_page a =
     EpubHtml ''Annotation'' ''annotation.xhtml''
       (''<h1>Annotation</h1>'' @ process_section_elements a) ''en''"

text \<open>
  The sections of a document that lie in a body, in document order; and the property
  of a well-formed FB2 document that no body lies inside another body.
\<close>

definition document_sections :: "element \<Rightarrow> element list" where
  "document_sections soup =
     filter (\<lambda>e. named [''section''] e \<and> find_parent ''body'' e) (descendants (fst soup) (snd soup))"

definition bodies_not_nested :: "element \<Rightarrow> bool" where
  "bodies_not_nested soup =
     list_all (\<lambda>e. \<not> (named [''body''] e \<and> find_parent ''body'' e)) (descendants (fst soup) (snd soup))"

text \<open>
  The output path \<^verbatim>\<open>convert_archive\<close> derives from an entry's name, and whether
  reading and converting the entry goes through without an exception.
\<close>

definition epub_path :: "string \<Rightarrow> string" where
  "epub_path fb2_file_name = fst (splitext fb2_file_name) @ ''.epub''"

definition entry_converts :: "world \<Rightarrow> ZipFile \<Rightarrow> string \<Rightarrow> bool" where
  "entry_converts w zip_ref fb2_file_name =
     (case zip_read zip_ref fb2_file_name of
        Inl e \<Rightarrow> False
      | Inr fb2_content \<Rightarrow> convert_fb2_to_epub w fb2_content (epub_path fb2_file_name) = None)"

subsection \<open>Example documents\<close>

text \<open>
  The example of the specification: title Test, author Ann Lee, one section titled
  Intro with the paragraph Hello.
\<close>

definition example_soup :: element where
  "example_soup = BeautifulSoup_object [Tag ''FictionBook'' [] [
     Tag ''description'' [] [Tag ''title-info'' [] [
        Tag ''book-title'' [] [NavigableString ''Test''],
        Tag ''author'' [] [Tag ''first-name'' [] [NavigableString ''Ann''],
                           Tag ''last-name'' [] [NavigableString ''Lee'']]]],
     Tag ''body'' [] [Tag ''section'' [] [
        Tag ''title'' [] [Tag ''p'' [] [NavigableString ''Intro'']],
        Tag ''p'' [] [NavigableString ''Hello'']]]]]"

text \<open>One body, one section with a paragraph and a nested section.\<close>

definition nested_roots :: "node list" where
  "nested_roots = [Tag ''FictionBook'' [] [
     Tag ''body'' [] [Tag ''section'' [] [
        Tag ''p'' [] [NavigableString ''Outer''],
        Tag ''section'' [] [Tag ''p'' [] [NavigableString ''Inner'']]]]]]"

definition nested_soup :: element where
  "nested_soup = BeautifulSoup_object nested_roots"

definition nested_inner :: element where
  "nested_inner = ([''section'', ''body'', ''FictionBook'', ''[document]''],
                   Tag ''section'' [] [Tag ''p'' [] [NavigableString ''Inner'']])"

definition nested_outer :: element where
  "nested_outer = ([''body'', ''FictionBook'', ''[document]''],
                   Tag ''section'' [] [Tag ''p'' [] [NavigableString ''Outer''], snd nested_inner])"

definition nested_body :: element where
  "nested_body = ([''FictionBook'', ''[document]''], Tag ''body'' [] [snd nested_outer])"

text \<open>A document in Russian with an annotation and one section.\<close>

definition annotated_soup :: element where
  "annotated_soup = BeautifulSoup_object [Tag ''FictionBook'' [] [
     Tag ''description'' [] [Tag ''title-info'' [] [
        Tag ''lang'' [] [NavigableString ''ru''],
        Tag ''annotation'' [] [Tag ''p'' [] [NavigableString ''About'']]]],
     Tag ''body'' [] [Tag ''section'' [] [Tag ''p'' [] [NavigableString ''Text'']]]]]"

text \<open>An annotation, two sections in a first body and one in a second body.\<close>

definition two_bodies_roots :: "node list" where
  "two_bodies_roots = [Tag ''FictionBook'' [] [
     Tag ''description'' [] [Tag ''title-info'' [] [
        Tag ''annotation'' [] [Tag ''p'' [] [NavigableString ''About'']]]],
     Tag ''body'' [] [
        Tag ''section'' [] [Tag ''p'' [] [NavigableString ''One'']],
        Tag ''section'' [] [Tag ''title'' [] [Tag ''p'' [] [NavigableString ''Two'']]]],
     Tag ''body'' [] [
        Tag ''section'' [] [Tag ''p'' [] [NavigableString ''Note'']]]]]"

text \<open>A paragraph of a section, and a link whose only attribute is \<^verbatim>\<open>href\<close>.\<close>

definition hello_paragraph :: element where
  "hello_paragraph = ([''section'', ''body''], Tag ''p'' [] [NavigableString ''Hello''])"

definition plain_link :: element where
  "plain_link = ([''p'', ''section''],
                 Tag ''a'' [(''href'', ''http://example.org/'')] [NavigableString ''site''])"

text \<open>A document with one section and a JPEG \<^verbatim>\<open>binary\<close> node of a given payload.\<close>

definition cover_roots :: "string \<Rightarrow> node list" where
  "cover_roots payload = [Tag ''FictionBook'' [] [
     Tag ''body'' [] [Tag ''section'' [] [Tag ''p'' [] [NavigableString ''Text'']]],
     Tag ''binary'' [(''id'', ''cover.jpg''), (''content-type'', ''image/jpeg'')]
       [NavigableString payload]]]"

subsection \<open>Example worlds\<close>

text \<open>An archive with two FB2 entries, the first one in a folder, and one other file.\<close>

definition two_books_zip :: ZipFile where
  "two_books_zip =
     \<lparr>namelist = [''sub/a.fb2'', ''notes.txt'', ''b.fb2''],
      zip_read = (\<lambda>f. Inr ''<FictionBook/>'')\<rparr>"

text \<open>
  A world where every path exists, every file reads and parses as an empty book, every
  archive is the one above, writing always succeeds, and \<^verbatim>\<open>b64decode\<close> knows one
  valid payload (\<^verbatim>\<open>aGk=\<close>, the bytes \<^verbatim>\<open>hi\<close>) and raises on anything else.
\<close>

definition quiet_world :: world where
  "quiet_world =
     \<lparr>path_exists = (\<lambda>p. True), read_file = (\<lambda>p. Inr ''<FictionBook/>''),
      open_zip = (\<lambda>p. Inr two_books_zip),
      parse_xml = (\<lambda>s. Inr [Tag ''FictionBook'' [] []]),
      b64decode = (\<lambda>s. if s = ''aGk='' then Inr ''hi'' else Inl (Raised ''binascii.Error'')),
      uuid4 = ''urn'',
      write_epub = (\<lambda>p b. Written)\<rparr>"

text \<open>The same world with the parser giving the document with a cover.\<close>

definition cover_world :: "string \<Rightarrow> world" where
  "cover_world payload = quiet_world\<lparr>parse_xml := (\<lambda>s. Inr (cover_roots payload))\<rparr>"

text \<open>
  The same world where the package cannot be written to one path (a folder that does
  not exist, a full disk): \<^verbatim>\<open>write_epub\<close> returns without a package.
\<close>

definition unwritable :: "string \<Rightarrow> world" where
  "unwritable bad_path =
     quiet_world\<lparr>write_epub := (\<lambda>p b. if p = bad_path then Not_written else Written)\<rparr>"

text \<open>
  The same world where one member of the archive is damaged: reading it raises
  \<^verbatim>\<open>BadZipFile\<close>.
\<close>

definition damaged_zip :: "string \<Rightarrow> ZipFile" where
  "damaged_zip bad_name =
     two_books_zip\<lparr>zip_read := (\<lambda>f. if f = bad_name then Inl (Raised ''BadZipFile'')
                                     else Inr ''<FictionBook/>'')\<rparr>"

definition damaged :: "string \<Rightarrow> world" where
  "damaged bad_name = quiet_world\<lparr>open_zip := (\<lambda>p. Inr (damaged_zip bad_name))\<rparr>"

text \<open>
  A document whose first JPEG \<^verbatim>\<open>binary\<close> node has a payload that does not decode and
  whose second one has a payload that does.
\<close>

definition second_cover :: element where
  "second_cover = ([''FictionBook'', ''[document]''],
                   Tag ''binary'' [(''id'', ''cover2.jpg''), (''content-type'', ''image/jpeg'')]
                     [NavigableString ''aGk=''])"

definition two_covers_soup :: element where
  "two_covers_soup = BeautifulSoup_object [Tag ''FictionBook'' [] [
     Tag ''body'' [] [Tag ''section'' [] [Tag ''p'' [] [NavigableString ''Text'']]],
     Tag ''binary'' [(''id'', ''cover1.jpg''), (''content-type'', ''image/jpeg'')]
       [NavigableString ''a''],
     snd second_cover]]"

section \<open>Auxiliary lemmas\<close>

subsection \<open>The loops in closed form\<close>

text \<open>The formatter's loop concatenates what the elements render.\<close>

lemma fold_append_concat: "fold (\<lambda>x acc. acc @ f x) xs acc = acc @ concat (map f xs)"
  by (induction xs arbitrary: acc) auto

lemma process_section_elements_concat:
  "process_section_elements s = concat (map section_element (find_all [''p'', ''a'', ''subtitle''] s))"
  by (simp add: process_section_elements_def fold_append_concat)

text \<open>The chapter loops number the sections they visit from 1, in the order visited.\<close>

lemma chapter_step_eq:
  "chapter_step s (t, sp, c, b) =
     (t @ [chapter_link (Suc c) s], sp @ [Item_ref (chapter_of (Suc c) s)], Suc c,
      add_item b (chapter_of (Suc c) s))"
  by (simp add: chapter_step_def chapter_of_def chapter_link_def chapter_title_def Let_def)

lemma fold_chapter_step:
  "fold chapter_step secs (t, sp, c, b) =
     (t @ map (\<lambda>(k, s). chapter_link k s) (enumerate (Suc c) secs),
      sp @ map (\<lambda>(k, s). Item_ref (chapter_of k s)) (enumerate (Suc c) secs),
      c + length secs,
      b\<lparr>items := items b @ map (\<lambda>(k, s). chapter_of k s) (enumerate (Suc c) secs)\<rparr>)"
  by (induction secs arbitrary: t sp c b) (simp_all add: chapter_step_eq add_item_def)

lemma fold_bodies:
  "fold (\<lambda>body st. fold chapter_step (find_all [''section''] body) st) bodies st =
     fold chapter_step (concat (map (find_all [''section'']) bodies)) st"
  by (induction bodies arbitrary: st) simp_all

lemma create_epub_chapters_eq:
  "create_epub_chapters soup b =
     (map (\<lambda>(k, s). chapter_link k s) (enumerate 1 (walked_sections soup)),
      b\<lparr>items := items b @ map (\<lambda>(k, s). chapter_of k s) (enumerate 1 (walked_sections soup)),
        spine := Nav_marker # map (\<lambda>(k, s). Item_ref (chapter_of k s)) (enumerate 1 (walked_sections soup))\<rparr>)"
  by (simp add: create_epub_chapters_def fold_bodies fold_chapter_step walked_sections_def)

text \<open>The book handed to \<^verbatim>\<open>write_epub\<close>, field by field.\<close>

lemma extract_cover_image_eq:
  "extract_cover_image w soup b = b\<lparr>items := items b @ cover_items w soup\<rparr>"
  by (simp add: extract_cover_image_def cover_items_def set_cover_def add_item_def
      split: option.splits sum.splits)

lemma fold_add_author:
  "fold (\<lambda>author b. b\<lparr>book_authors := book_authors b @ [author]\<rparr>) as b =
     b\<lparr>book_authors := book_authors b @ as\<rparr>"
  by (induction as arbitrary: b) simp_all

lemma fold_toc_append:
  "fold (\<lambda>l b. b\<lparr>toc := toc b @ [l]\<rparr>) ls b = b\<lparr>toc := toc b @ ls\<rparr>"
  by (induction ls arbitrary: b) simp_all

lemma extract_metadata_annotation: "snd (snd (extract_metadata soup)) = annotation_of soup"
  by (simp add: extract_metadata_def annotation_of_def Let_def split: option.splits)

lemma fb2_book_eq:
  "fb2_book w soup =
     \<lparr>book_identifier = uuid4 w,
      book_title = fst (extract_metadata soup),
      book_language = ''en'',
      book_authors = fst (snd (extract_metadata soup)),
      items = cover_items w soup
              @ map (\<lambda>(k, s). chapter_of k s) (enumerate 1 (walked_sections soup))
              @ (case annotation_of soup of None \<Rightarrow> [] | Some a \<Rightarrow> [annotation_page a])
              @ [EpubNcx, EpubNav],
      spine = (case annotation_of soup of None \<Rightarrow> []
               | Some a \<Rightarrow> [Item_ref (annotation_page a), Item_ref (annotation_page a)])
              @ Nav_marker # map (\<lambda>(k, s). Item_ref (chapter_of k s)) (enumerate 1 (walked_sections soup)),
      toc = (case annotation_of soup of None \<Rightarrow> []
             | Some a \<Rightarrow> [Link ''annotation.xhtml'' ''Annotation'' ''annotation''])
            @ map (\<lambda>(k, s). chapter_link k s) (enumerate 1 (walked_sections soup))\<rparr>"
proof -
  obtain ttl authors ann where m: "extract_metadata soup = (ttl, authors, ann)"
    by (cases "extract_metadata soup") auto
  have a: "annotation_of soup = ann"
    using extract_metadata_annotation [of soup] m by simp
  show ?thesis
    by (cases ann)
       (simp_all add: fb2_book_def m a create_epub_chapters_eq extract_cover_image_eq
          fold_add_author fold_toc_append add_annotation_to_book_def add_item_def
          new_EpubBook_def annotation_page_def Let_def)
qed

subsection \<open>The tree walk\<close>

text \<open>
  Every node below a tag has the tag among its ancestors. Hence, when bodies are not
  nested, visiting the sections of each body in turn visits the sections of the
  document that lie in a body, once each and in document order.
\<close>

lemma descendants_anc:
  "e \<in> set (descendants a n) \<Longrightarrow> set a \<subseteq> set (fst e) \<and> name n \<in> set (fst e)"
proof (induction n arbitrary: a e)
  case (Tag nm as cs)
  from Tag.prems obtain c where c: "c \<in> set cs"
    and e: "e = (nm # a, c) \<or> e \<in> set (descendants (nm # a) c)"
    by auto
  from e show ?case
  proof
    assume "e = (nm # a, c)"
    then show ?thesis by auto
  next
    assume "e \<in> set (descendants (nm # a) c)"
    from Tag.IH [OF c this] show ?thesis by auto
  qed
next
  case (NavigableString s)
  then show ?case by simp
qed

lemma concat_filter_children:
  assumes "\<And>c. c \<in> set cs \<Longrightarrow> concat (map f (filter p (g c))) = filter q (g c)"
  shows "concat (map f (filter p (concat (map g cs)))) = filter q (concat (map g cs))"
  using assms by (induction cs) simp_all

lemma sections_of_bodies:
  assumes "''body'' \<notin> set a"
    and "list_all (\<lambda>e. \<not> (named [''body''] e \<and> find_parent ''body'' e)) ((a, n) # descendants a n)"
  shows "concat (map (find_all [''section'']) (filter (named [''body'']) ((a, n) # descendants a n)))
         = filter (\<lambda>e. named [''section''] e \<and> find_parent ''body'' e) ((a, n) # descendants a n)"
  using assms
proof (induction n arbitrary: a)
  case (NavigableString s)
  then show ?case by (simp add: named_def find_parent_def)
next
  case (Tag nm as cs)
  let ?D = "descendants a (Tag nm as cs)"
  have ok: "\<forall>e \<in> set ?D. \<not> (named [''body''] e \<and> find_parent ''body'' e)"
    using Tag.prems(2) by (simp add: list_all_iff)
  have head: "\<not> find_parent ''body'' (a, Tag nm as cs)"
    using Tag.prems(1) by (simp add: find_parent_def)
  show ?case
  proof (cases "nm = ''body''")
    case True
    have below: "\<forall>e \<in> set ?D. find_parent ''body'' e"
      using descendants_anc [of _ a "Tag nm as cs"] True by (auto simp: find_parent_def)
    have "filter (named [''body'']) ?D = []"
      unfolding filter_empty_conv using ok below by blast
    moreover have "filter (\<lambda>e. named [''section''] e \<and> find_parent ''body'' e) ?D
                   = filter (named [''section'']) ?D"
      by (rule filter_cong [OF refl]) (use below in blast)
    moreover have "named [''body''] (a, Tag nm as cs)" "\<not> named [''section''] (a, Tag nm as cs)"
      using True by (simp_all add: named_def)
    ultimately show ?thesis
      using head by (simp add: find_all_def)
  next
    case False
    have nb: "\<not> named [''body''] (a, Tag nm as cs)"
      using False by (simp add: named_def)
    have kids: "concat (map (find_all [''section''])
                  (filter (named [''body'']) ((nm # a, c) # descendants (nm # a) c)))
                = filter (\<lambda>e. named [''section''] e \<and> find_parent ''body'' e)
                    ((nm # a, c) # descendants (nm # a) c)"
      if c: "c \<in> set cs" for c
    proof (rule Tag.IH [OF c])
      show "''body'' \<notin> set (nm # a)"
        using Tag.prems(1) False by auto
      have "set ((nm # a, c) # descendants (nm # a) c) \<subseteq> set ?D"
        using c by auto
      then show "list_all (\<lambda>e. \<not> (named [''body''] e \<and> find_parent ''body'' e))
                   ((nm # a, c) # descendants (nm # a) c)"
        using ok unfolding list_all_iff by blast
    qed
    have "concat (map (find_all [''section'']) (filter (named [''body'']) ?D))
          = filter (\<lambda>e. named [''section''] e \<and> find_parent ''body'' e) ?D"
      unfolding descendants.simps
      by (rule concat_filter_children) (rule kids)
    then show ?thesis
      using nb head by simp
  qed
qed

lemma walked_sections_document:
  assumes "''body'' \<notin> set (fst soup)" and "\<not> named [''body''] soup" and "bodies_not_nested soup"
  shows "walked_sections soup = document_sections soup"
proof -
  obtain a n where s: "soup = (a, n)" by (cases soup)
  have "list_all (\<lambda>e. \<not> (named [''body''] e \<and> find_parent ''body'' e)) ((a, n) # descendants a n)"
    using assms by (simp add: s bodies_not_nested_def find_parent_def)
  from sections_of_bodies [OF _ this] assms(1,2) show ?thesis
    by (simp add: s walked_sections_def document_sections_def find_all_def find_parent_def)
qed

text \<open>
  The nodes below a descendant form one block of the nodes below the node itself, so
  what \<^verbatim>\<open>find_all\<close> gives for the descendant is a block of what it gives for the
  node.
\<close>

lemma descendants_split:
  "(a', t) \<in> set (descendants a n) \<Longrightarrow>
     \<exists>ps ss. descendants a n = ps @ (a', t) # descendants a' t @ ss"
proof (induction n arbitrary: a)
  case (NavigableString s)
  then show ?case by simp
next
  case (Tag nm as cs)
  let ?g = "\<lambda>c. (nm # a, c) # descendants (nm # a) c"
  from Tag.prems obtain c where c: "c \<in> set cs" and e: "(a', t) \<in> set (?g c)"
    by auto
  from c obtain cs1 cs2 where cs: "cs = cs1 @ c # cs2"
    by (auto dest: split_list)
  have d: "descendants a (Tag nm as cs) = concat (map ?g cs1) @ ?g c @ concat (map ?g cs2)"
    by (simp add: cs)
  show ?case
  proof (cases "(a', t) = (nm # a, c)")
    case True
    then have "descendants a (Tag nm as cs)
               = concat (map ?g cs1) @ (a', t) # descendants a' t @ concat (map ?g cs2)"
      using d by simp
    then show ?thesis by blast
  next
    case False
    with e have "(a', t) \<in> set (descendants (nm # a) c)" by auto
    from Tag.IH [OF c this] obtain ps ss where
      "descendants (nm # a) c = ps @ (a', t) # descendants a' t @ ss" by blast
    then have "descendants a (Tag nm as cs)
               = (concat (map ?g cs1) @ (nm # a, c) # ps) @ (a', t) # descendants a' t
                 @ (ss @ concat (map ?g cs2))"
      using d by simp
    then show ?thesis by blast
  qed
qed

lemma find_all_nested:
  assumes "inner \<in> set (find_all names outer)"
  shows "\<exists>ps ss. find_all names' outer = ps @ find_all names' inner @ ss"
proof -
  obtain a' t where i: "inner = (a', t)" by (cases inner)
  from assms have "(a', t) \<in> set (descendants (fst outer) (snd outer))"
    by (simp add: find_all_def i)
  from descendants_split [OF this] obtain ps ss where
    "descendants (fst outer) (snd outer) = ps @ (a', t) # descendants a' t @ ss" by blast
  then have "find_all names' outer
             = filter (named names') (ps @ [(a', t)]) @ find_all names' inner
               @ filter (named names') ss"
    by (simp add: find_all_def i)
  then show ?thesis by blast
qed

lemma find_all_trans:
  assumes "inner \<in> set (find_all names outer)" and "outer \<in> set (find_all names' root)"
  shows "inner \<in> set (find_all names root)"
proof -
  from find_all_nested [OF assms(2), of names] obtain ps ss where
    "find_all names root = ps @ find_all names outer @ ss" by blast
  with assms(1) show ?thesis by simp
qed

subsection \<open>The archive loop\<close>

text \<open>The loop collects the output paths of the entries before the first failure.\<close>

lemma fst_convert_entries:
  "fst (convert_entries w z fs acc) = acc @ map epub_path (takeWhile (entry_converts w z) fs)"
  by (induction fs arbitrary: acc)
     (simp_all add: entry_converts_def epub_path_def Let_def split: sum.splits option.splits)

lemma convert_archive_fst:
  "convert_archive w zip_path = Inr (fst (convert_archive_try w zip_path))"
  by (simp add: convert_archive_def split: prod.splits)

subsection \<open>Kinds of items\<close>

lemma html_cover_items: "filter is_EpubHtml (cover_items w soup) = []"
  by (simp add: cover_items_def split: option.splits sum.splits)

lemma html_chapters:
  "filter is_EpubHtml (map (\<lambda>(k, s). chapter_of k s) xs) = map (\<lambda>(k, s). chapter_of k s) xs"
  by (induction xs) (auto simp: chapter_of_def)

lemma chapter_file_names:
  "length ks = length secs \<Longrightarrow>
     map (\<lambda>(k, s). file_name (chapter_of k s)) (zip ks secs)
     = map (\<lambda>k. ''chapter_'' @ str_nat k @ ''.xhtml'') ks"
  by (induction ks secs rule: list_induct2) (simp_all add: chapter_of_def)

subsection \<open>Sections and their chapters\<close>

lemma in_enumerate:
  assumes "x \<in> set xs"
  shows "\<exists>k\<ge>n. (k, x) \<in> set (enumerate n xs)"
proof -
  from assms obtain i where "i < length xs" and "xs ! i = x"
    by (auto simp: in_set_conv_nth)
  then have "(n + i, x) \<in> set (enumerate n xs)"
    by (simp add: in_set_enumerate_eq)
  then show ?thesis
    by (intro exI [of _ "n + i"]) simp
qed

lemma chapter_in_items:
  assumes "s \<in> set (walked_sections soup)"
  shows "\<exists>k\<ge>1. chapter_of k s \<in> set (items (fb2_book w soup))"
proof -
  from in_enumerate [OF assms, of 1] obtain k where
    k: "1 \<le> k" "(k, s) \<in> set (enumerate 1 (walked_sections soup))"
    by blast
  from k(2) have "chapter_of k s
                  \<in> set (map (\<lambda>(k, s). chapter_of k s) (enumerate 1 (walked_sections soup)))"
    by force
  then have "chapter_of k s \<in> set (items (fb2_book w soup))"
    by (simp add: fb2_book_eq)
  with k(1) show ?thesis by blast
qed

lemma nested_content:
  assumes "inner \<in> set (find_all names outer)"
  shows "sublist (process_section_elements inner) (process_section_elements outer)"
proof -
  from find_all_nested [OF assms, of "[''p'', ''a'', ''subtitle'']"] obtain ps ss where
    "find_all [''p'', ''a'', ''subtitle''] outer
     = ps @ find_all [''p'', ''a'', ''subtitle''] inner @ ss"
    by blast
  then have "process_section_elements outer
             = concat (map section_element ps) @ process_section_elements inner
               @ concat (map section_element ss)"
    by (simp add: process_section_elements_concat)
  then show ?thesis
    unfolding sublist_def by blast
qed

lemma html_items:
  "filter is_EpubHtml (items (fb2_book w soup))
   = map (\<lambda>(k, s). chapter_of k s) (enumerate 1 (walked_sections soup))
     @ (case annotation_of soup of None \<Rightarrow> [] | Some a \<Rightarrow> [annotation_page a])"
  by (simp add: fb2_book_eq html_cover_items html_chapters annotation_page_def
      split: option.splits)

lemma cover_chapters:
  "filter is_cover_item (map (\<lambda>(k, s). chapter_of k s) xs) = []"
  by (induction xs) (auto simp: chapter_of_def is_cover_item_def)

lemma cover_cover_items:
  "filter is_cover_item (cover_items w soup) = cover_items w soup"
  by (simp add: cover_items_def is_cover_item_def split: option.splits sum.splits)

lemma cover_item_list:
  "filter is_cover_item (items (fb2_book w soup)) = cover_items w soup"
  by (simp add: fb2_book_eq cover_chapters cover_cover_items annotation_page_def
      is_cover_item_def split: option.splits)

subsection \<open>File names\<close>

text \<open>Different counts give different decimal strings, hence different file names.\<close>

lemma digit_code:
  assumes "d < 10"
  shows "of_char (digit d) = 48 + d"
proof -
  from assms have "d = 0 \<or> d = 1 \<or> d = 2 \<or> d = 3 \<or> d = 4 \<or> d = 5 \<or> d = 6 \<or> d = 7
                   \<or> d = 8 \<or> d = 9"
    by arith
  then show ?thesis
    by (elim disjE) (simp_all add: digit_def)
qed

lemma digit_inj:
  assumes "d < 10" and "d' < 10" and "digit d = digit d'"
  shows "d = d'"
proof -
  have "(of_char (digit d) :: nat) = of_char (digit d')"
    using assms(3) by simp
  then show ?thesis
    using digit_code [OF assms(1)] digit_code [OF assms(2)] by simp
qed

lemma str_nat_small: "n < 10 \<Longrightarrow> str_nat n = [digit n]"
  by (subst str_nat.simps) simp

lemma str_nat_large:
  "\<not> n < 10 \<Longrightarrow> str_nat n = str_nat (n div 10) @ [digit (n mod 10)]"
  by (subst str_nat.simps) simp

lemma str_nat_nonempty: "str_nat n \<noteq> []"
  by (cases "n < 10") (simp_all add: str_nat_small str_nat_large)

lemma str_nat_inj: "str_nat n = str_nat m \<Longrightarrow> n = m"
proof (induction n arbitrary: m rule: str_nat.induct)
  case (1 n)
  show ?case
  proof (cases "n < 10")
    case True
    show ?thesis
    proof (cases "m < 10")
      case m: True
      from "1.prems" have "digit n = digit m"
        by (simp add: str_nat_small True m)
      then show ?thesis
        using True m by (rule digit_inj [rotated 2])
    next
      case m: False
      from "1.prems" have "str_nat (m div 10) = []"
        by (simp add: str_nat_small True str_nat_large m)
      then show ?thesis
        by (simp add: str_nat_nonempty)
    qed
  next
    case False
    show ?thesis
    proof (cases "m < 10")
      case m: True
      from "1.prems" have "str_nat (n div 10) = []"
        by (simp add: str_nat_small m str_nat_large False)
      then show ?thesis
        by (simp add: str_nat_nonempty)
    next
      case m: False
      from "1.prems" have eq: "str_nat (n div 10) = str_nat (m div 10)"
        and d: "digit (n mod 10) = digit (m mod 10)"
        by (simp_all add: str_nat_large False m)
      from "1.IH" [OF False eq] have "n div 10 = m div 10" .
      moreover have "n mod 10 = m mod 10"
        using d by (intro digit_inj) simp_all
      ultimately show ?thesis
        by (metis div_mult_mod_eq)
    qed
  qed
qed

lemma chapter_file_name_inj:
  assumes "file_name (chapter_of j s) = file_name (chapter_of k t)"
  shows "j = k"
proof -
  from assms have "str_nat j = str_nat k"
    by (simp add: chapter_of_def)
  then show ?thesis
    by (rule str_nat_inj)
qed

subsection \<open>A nested section comes later in the walk\<close>

lemma find_all_with_self:
  assumes "outer \<in> set (find_all names body)"
  shows "\<exists>ps ss. find_all names body = ps @ outer # find_all names outer @ ss"
proof -
  obtain a' t where o: "outer = (a', t)" by (cases outer)
  from assms have n: "named names (a', t)"
    and m: "(a', t) \<in> set (descendants (fst body) (snd body))"
    by (simp_all add: find_all_def o)
  from descendants_split [OF m] obtain ps ss where
    "descendants (fst body) (snd body) = ps @ (a', t) # descendants a' t @ ss" by blast
  then have "find_all names body
             = filter (named names) ps @ outer # find_all names outer
               @ filter (named names) ss"
    using n by (simp add: find_all_def o)
  then show ?thesis by blast
qed

lemma walked_positions:
  assumes "body \<in> set (find_all [''body''] soup)"
      and "outer \<in> set (find_all [''section''] body)"
      and "inner \<in> set (find_all [''section''] outer)"
  shows "\<exists>p q. p < q \<and> q < length (walked_sections soup)
           \<and> walked_sections soup ! p = outer \<and> walked_sections soup ! q = inner"
proof -
  let ?f = "find_all [''section'']"
  from assms(1) obtain bs1 bs2 where bs: "find_all [''body''] soup = bs1 @ body # bs2"
    by (auto dest: split_list)
  from find_all_with_self [OF assms(2)] obtain ps ss where
    b: "?f body = ps @ outer # ?f outer @ ss" by blast
  from assms(3) obtain us vs where o: "?f outer = us @ inner # vs"
    by (auto dest: split_list)
  let ?pre = "concat (map ?f bs1) @ ps"
  let ?post = "vs @ ss @ concat (map ?f bs2)"
  have ws: "walked_sections soup = ?pre @ outer # us @ inner # ?post"
    by (simp add: walked_sections_def bs b o)
  have "walked_sections soup ! length ?pre = outer"
    unfolding ws by (rule nth_append_length)
  moreover have "walked_sections soup ! (length ?pre + Suc (length us)) = inner"
  proof -
    have "walked_sections soup = (?pre @ outer # us) @ inner # ?post"
      by (simp add: ws)
    then have "walked_sections soup ! length (?pre @ outer # us) = inner"
      by (metis nth_append_length)
    then show ?thesis by (simp add: ac_simps)
  qed
  moreover have "length ?pre + Suc (length us) < length (walked_sections soup)"
    by (simp add: ws)
  ultimately show ?thesis
    by (intro exI [of _ "length ?pre"] exI [of _ "length ?pre + Suc (length us)"]) simp
qed

subsection \<open>What holds for every document\<close>

text \<open>
  The package language does not depend on the document; title and authors are the
  ones \<^verbatim>\<open>extract_metadata\<close> returns; an annotation is put into the spine twice; a link
  without \<^verbatim>\<open>l:href\<close> is rendered with the default value.
\<close>

lemma language_is_en: "book_language (fb2_book w soup) = ''en''"
  by (simp add: fb2_book_eq)

lemma title_and_authors:
  "book_title (fb2_book w soup) = fst (extract_metadata soup)
   \<and> book_authors (fb2_book w soup) = fst (snd (extract_metadata soup))"
  by (simp add: fb2_book_eq)

lemma metadata_defaults:
  "find ''title-info'' soup = None \<Longrightarrow> extract_metadata soup = (''Unknown Title'', [], None)"
  by (simp add: extract_metadata_def)

lemma spine_with_annotation:
  "annotation_of soup = Some a \<Longrightarrow>
     take 3 (spine (fb2_book w soup))
     = [Item_ref (annotation_page a), Item_ref (annotation_page a), Nav_marker]"
  by (simp add: fb2_book_eq)

lemma link_rendering:
  \<open>name (snd e) = ''a'' \<Longrightarrow>
     section_element e =
       ''<a href="''
       @ (case map_of (attrs (snd e)) ''l:href'' of Some v \<Rightarrow> v | None \<Rightarrow> ''href'')
       @ ''">'' @ get_text e @ ''</a>''\<close>
  by (simp add: section_element_def get_def)

subsection \<open>Evaluation\<close>

text \<open>The definitions unfolded to evaluate the model at a concrete document.\<close>

lemmas model_defs = BeautifulSoup_object_def find_def find_all_def named_def find_attrs_def
  find_parent_def get_def get_text_def get_text_strip_def strip_def isspace_def
  process_paragraph_def section_element_def process_section_elements_def
  extract_metadata_def author_name_def List.map_filter_def
  create_epub_chapters_def chapter_step_def add_item_def set_cover_def new_EpubBook_def
  extract_cover_image_def add_annotation_to_book_def fb2_book_def str_nat.simps digit_def Let_def

section \<open>Claims\<close>

text \<open>
  C1. In a document whose bodies are not nested in one another, with N sections lying
  in bodies (counted in document order, nested ones included), the XHTML documents of the
  package are exactly N chapters, the k-th made from the k-th section and named
  \<^verbatim>\<open>chapter_k.xhtml\<close> with k running from 1 to N across all bodies, followed by the
  annotation page when there is one; the table of contents has one link per chapter in
  the same order, after the annotation link when there is one, hence N or N + 1
  entries.
\<close>

theorem chapters_numbered_in_document_order:
  assumes "bodies_not_nested (BeautifulSoup_object roots)"
  shows "let soup = BeautifulSoup_object roots;
             secs = document_sections soup;
             N = length secs;
             book = fb2_book w soup
         in filter is_EpubHtml (items book)
              = map (\<lambda>(k, s). chapter_of k s) (zip [1..<Suc N] secs)
                @ (case annotation_of soup of None \<Rightarrow> [] | Some a \<Rightarrow> [annotation_page a])
          \<and> map (\<lambda>(k, s). file_name (chapter_of k s)) (zip [1..<Suc N] secs)
              = map (\<lambda>k. ''chapter_'' @ str_nat k @ ''.xhtml'') [1..<Suc N]
          \<and> toc book
              = (case annotation_of soup of None \<Rightarrow> []
                 | Some a \<Rightarrow> [Link ''annotation.xhtml'' ''Annotation'' ''annotation''])
                @ map (\<lambda>(k, s). chapter_link k s) (zip [1..<Suc N] secs)
          \<and> map (\<lambda>(k, s). href (chapter_link k s)) (zip [1..<Suc N] secs)
              = map (\<lambda>(k, s). file_name (chapter_of k s)) (zip [1..<Suc N] secs)
          \<and> length (toc book) = (case annotation_of soup of None \<Rightarrow> N | Some a \<Rightarrow> N + 1)"
proof -
  let ?soup = "BeautifulSoup_object roots"
  let ?secs = "document_sections ?soup"
  have w: "walked_sections ?soup = ?secs"
    by (rule walked_sections_document)
       (use assms in \<open>simp_all add: BeautifulSoup_object_def named_def\<close>)
  have e: "enumerate (Suc 0) ?secs = zip [Suc 0..<Suc (length ?secs)] ?secs"
    by (simp add: enumerate_eq_zip del: upt_Suc)
  have names: "map (\<lambda>(k, s). file_name (chapter_of k s)) (zip [1..<Suc (length ?secs)] ?secs)
               = map (\<lambda>k. ''chapter_'' @ str_nat k @ ''.xhtml'') [1..<Suc (length ?secs)]"
    by (rule chapter_file_names) (simp del: upt_Suc)
  have hrefs: "map (\<lambda>(k, s). href (chapter_link k s)) (zip [1..<Suc (length ?secs)] ?secs)
               = map (\<lambda>(k, s). file_name (chapter_of k s)) (zip [1..<Suc (length ?secs)] ?secs)"
    by (simp add: chapter_of_def chapter_link_def)
  have pages: "filter is_EpubHtml (items (fb2_book w ?soup))
               = map (\<lambda>(k, s). chapter_of k s) (zip [1..<Suc (length ?secs)] ?secs)
                 @ (case annotation_of ?soup of None \<Rightarrow> [] | Some a \<Rightarrow> [annotation_page a])"
    by (simp add: fb2_book_eq w e html_cover_items html_chapters annotation_page_def
        del: upt_Suc split: option.splits)
  have links: "toc (fb2_book w ?soup)
               = (case annotation_of ?soup of None \<Rightarrow> []
                  | Some a \<Rightarrow> [Link ''annotation.xhtml'' ''Annotation'' ''annotation''])
                 @ map (\<lambda>(k, s). chapter_link k s) (zip [1..<Suc (length ?secs)] ?secs)"
    by (simp add: fb2_book_eq w e del: upt_Suc)
  have len: "length (toc (fb2_book w ?soup))
             = (case annotation_of ?soup of None \<Rightarrow> length ?secs | Some a \<Rightarrow> length ?secs + 1)"
    by (simp add: links del: upt_Suc split: option.splits)
  show ?thesis
    unfolding Let_def using pages names links hrefs len by blast
qed

theorem chapters_numbered_in_document_order_witness:
  "bodies_not_nested (BeautifulSoup_object two_bodies_roots)
   \<and> length (document_sections (BeautifulSoup_object two_bodies_roots)) = 3
   \<and> map file_name (filter is_EpubHtml
        (items (fb2_book quiet_world (BeautifulSoup_object two_bodies_roots))))
     = [''chapter_1.xhtml'', ''chapter_2.xhtml'', ''chapter_3.xhtml'', ''annotation.xhtml'']
   \<and> map href (toc (fb2_book quiet_world (BeautifulSoup_object two_bodies_roots)))
     = [''annotation.xhtml'', ''chapter_1.xhtml'', ''chapter_2.xhtml'', ''chapter_3.xhtml'']"
proof -
  let ?soup = "BeautifulSoup_object two_bodies_roots"
  have h: "bodies_not_nested ?soup"
    by (simp add: bodies_not_nested_def two_bodies_roots_def model_defs)
  have secs: "document_sections ?soup
     = [([''body'', ''FictionBook'', ''[document]''],
         Tag ''section'' [] [Tag ''p'' [] [NavigableString ''One'']]),
        ([''body'', ''FictionBook'', ''[document]''],
         Tag ''section'' [] [Tag ''title'' [] [Tag ''p'' [] [NavigableString ''Two'']]]),
        ([''body'', ''FictionBook'', ''[document]''],
         Tag ''section'' [] [Tag ''p'' [] [NavigableString ''Note'']])]"
    by (simp add: document_sections_def two_bodies_roots_def model_defs)
  have a: "annotation_of ?soup
     = Some ([''title-info'', ''description'', ''FictionBook'', ''[document]''],
             Tag ''annotation'' [] [Tag ''p'' [] [NavigableString ''About'']])"
    by (simp add: annotation_of_def two_bodies_roots_def model_defs)
  note c1 = chapters_numbered_in_document_order [OF h, of quiet_world, unfolded Let_def secs a]
  have pages: "map file_name (filter is_EpubHtml (items (fb2_book quiet_world ?soup)))
        = [''chapter_1.xhtml'', ''chapter_2.xhtml'', ''chapter_3.xhtml'', ''annotation.xhtml'']"
    by (simp add: c1 [THEN conjunct1] chapter_of_def annotation_page_def str_nat.simps digit_def)
  have links: "map href (toc (fb2_book quiet_world ?soup))
        = [''annotation.xhtml'', ''chapter_1.xhtml'', ''chapter_2.xhtml'', ''chapter_3.xhtml'']"
    by (simp add: c1 [THEN conjunct2, THEN conjunct2, THEN conjunct1] chapter_link_def
          str_nat.simps digit_def)
  from h secs pages links show ?thesis by simp
qed

text \<open>
  C7. A \<^verbatim>\<open>p\<close> element with no \<^verbatim>\<open>title\<close> ancestor is rendered as the styled
  paragraph wrapper around: its flattened text in \<^verbatim>\<open><i>\<close> when it has an
  \<^verbatim>\<open>emphasis\<close> descendant; nothing when it has none but has an \<^verbatim>\<open>a\<close> descendant;
  its flattened text, unescaped, otherwise. The formatter's output for a section is the
  concatenation of what its \<^verbatim>\<open>p\<close>, \<^verbatim>\<open>a\<close> and \<^verbatim>\<open>subtitle\<close> descendants render, in
  document order. The example document (title Test, author Ann Lee, one section titled
  Intro with the paragraph Hello) gives the one chapter \<^verbatim>\<open>chapter_1.xhtml\<close> with the
  content stated.
\<close>

theorem paragraph_rendering:
  \<open>(name (snd e) = ''p'' \<and> \<not> find_parent ''title'' e \<longrightarrow>
      section_element e =
        ''<p style="text-indent: 1em;">''
        @ (if find ''emphasis'' e \<noteq> None then ''<i>'' @ get_text e @ ''</i>''
           else if find ''a'' e \<noteq> None then []
           else get_text e)
        @ ''</p>'')
   \<and> process_section_elements s
       = concat (map section_element (find_all [''p'', ''a'', ''subtitle''] s))
   \<and> book_title (fb2_book w example_soup) = ''Test''
   \<and> book_authors (fb2_book w example_soup) = [''Ann Lee'']
   \<and> map file_name (filter is_EpubHtml (items (fb2_book w example_soup))) = [''chapter_1.xhtml'']
   \<and> map content (filter is_EpubHtml (items (fb2_book w example_soup)))
       = [''<h1>Intro</h1><p style="text-indent: 1em;">Hello</p>'']\<close>
proof -
  have p: \<open>name (snd e) = ''p'' \<and> \<not> find_parent ''title'' e \<longrightarrow>
      section_element e =
        ''<p style="text-indent: 1em;">''
        @ (if find ''emphasis'' e \<noteq> None then ''<i>'' @ get_text e @ ''</i>''
           else if find ''a'' e \<noteq> None then []
           else get_text e)
        @ ''</p>''\<close>
    by (simp add: section_element_def process_paragraph_def Let_def)
  have t: "book_title (fb2_book w example_soup) = ''Test''"
    by (simp add: example_soup_def model_defs)
  have a: "book_authors (fb2_book w example_soup) = [''Ann Lee'']"
    by (simp add: example_soup_def model_defs)
  have f: "map file_name (filter is_EpubHtml (items (fb2_book w example_soup)))
           = [''chapter_1.xhtml'']"
    by (simp add: example_soup_def model_defs)
  have c: \<open>map content (filter is_EpubHtml (items (fb2_book w example_soup)))
           = [''<h1>Intro</h1><p style="text-indent: 1em;">Hello</p>'']\<close>
    by (simp add: example_soup_def model_defs)
  from p process_section_elements_concat [of s] t a f c show ?thesis
    by blast
qed

theorem paragraph_rendering_witness:
  \<open>name (snd hello_paragraph) = ''p'' \<and> \<not> find_parent ''title'' hello_paragraph
   \<and> section_element hello_paragraph = ''<p style="text-indent: 1em;">Hello</p>''\<close>
  using paragraph_rendering [where e = hello_paragraph]
  by (simp add: hello_paragraph_def find_parent_def find_def find_all_def named_def get_text_def)

text \<open>
  C9. Evaluated at a link that carries only the attribute \<^verbatim>\<open>href\<close>: the attribute
  holds the target, and the rendered \<^verbatim>\<open>href\<close> is the word \<^verbatim>\<open>href\<close>, the default
  value passed to \<^verbatim>\<open>get\<close>.
\<close>

theorem link_without_namespaced_href:
  \<open>get plain_link ''href'' [] = ''http://example.org/''
   \<and> section_element plain_link = ''<a href="href">site</a>''\<close>
  by (simp add: plain_link_def section_element_def get_def get_text_def find_parent_def)

text \<open>
  C4. Evaluated at a document whose \<^verbatim>\<open>title-info\<close> has \<^verbatim>\<open>lang\<close> ru: the package's
  language is en.
\<close>

theorem language_not_carried_over:
  "map_option get_text (Option.bind (find ''title-info'' annotated_soup) (find ''lang''))
     = Some ''ru''
   \<and> book_language (fb2_book quiet_world annotated_soup) = ''en''"
  by (simp add: fb2_book_eq) (simp add: annotated_soup_def model_defs)

text \<open>
  C2. Evaluated at a document with an annotation and one section: the spine holds the
  annotation page twice, then the nav marker, then the chapter; the table of contents
  holds the annotation link once, first.
\<close>

theorem annotation_twice_in_spine:
  \<open>spine (fb2_book quiet_world annotated_soup)
     = [Item_ref (EpubHtml ''Annotation'' ''annotation.xhtml''
                    ''<h1>Annotation</h1><p style="text-indent: 1em;">About</p>'' ''en''),
        Item_ref (EpubHtml ''Annotation'' ''annotation.xhtml''
                    ''<h1>Annotation</h1><p style="text-indent: 1em;">About</p>'' ''en''),
        Nav_marker,
        Item_ref (EpubHtml ''Chapter 1'' ''chapter_1.xhtml''
                    ''<h1>Chapter 1</h1><p style="text-indent: 1em;">Text</p>'' ''en'')]
   \<and> map href (toc (fb2_book quiet_world annotated_soup))
     = [''annotation.xhtml'', ''chapter_1.xhtml'']\<close>
  by (simp add: annotated_soup_def model_defs)

text \<open>
  C5, amended. When the input file exists and is read, \<^verbatim>\<open>convert_file\<close> returns the
  output path \<^verbatim>\<open>{base}.epub\<close> whatever the conversion did: the \<^verbatim>\<open>try\<close> block ends
  with the output path bound and with the outcome of \<^verbatim>\<open>convert_fb2_to_epub\<close>, an
  exception or none, and that outcome has no part in what is returned. So neither an
  exception of the parser or of the writing nor a package that \<^verbatim>\<open>write_epub\<close> did not
  write is reported to the caller.
\<close>

theorem convert_file_returns_path_whatever_happened:
  assumes "path_exists w fb2_path" and "read_file w fb2_path = Inr fb2_content"
  shows "convert_file_try w fb2_path
           = (Some (fst (splitext (basename fb2_path)) @ ''.epub''),
              convert_fb2_to_epub w fb2_content (fst (splitext (basename fb2_path)) @ ''.epub''))
       \<and> convert_file w fb2_path = Inr (fst (splitext (basename fb2_path)) @ ''.epub'')"
  using assms by (simp add: convert_file_def convert_file_try_def Let_def)

theorem convert_file_returns_path_whatever_happened_witness:
  "path_exists quiet_world ''dir/book.fb2''
   \<and> read_file quiet_world ''dir/book.fb2'' = Inr ''<FictionBook/>''
   \<and> convert_file quiet_world ''dir/book.fb2'' = Inr ''book.epub''"
proof -
  have p: "path_exists quiet_world ''dir/book.fb2''"
    by (simp add: quiet_world_def)
  have r: "read_file quiet_world ''dir/book.fb2'' = Inr ''<FictionBook/>''"
    by (simp add: quiet_world_def)
  have b: "fst (splitext (basename ''dir/book.fb2'')) @ ''.epub'' = ''book.epub''"
    by (simp add: basename_def splitext_def Let_def)
  from convert_file_returns_path_whatever_happened [OF p r] p r show ?thesis
    by (simp add: b)
qed

text \<open>
  Against C5 as stated: the package cannot be written, \<^verbatim>\<open>write_epub\<close> returns without
  one, and \<^verbatim>\<open>convert_file\<close> returns the output path.
\<close>

theorem unwritten_package_reported_as_written:
  "write_epub (unwritable ''book.epub'') ''book.epub''
     (fb2_book (unwritable ''book.epub'') (BeautifulSoup_object [Tag ''FictionBook'' [] []]))
     = Not_written
   \<and> convert_file (unwritable ''book.epub'') ''dir/book.fb2'' = Inr ''book.epub''"
  by (simp add: unwritable_def quiet_world_def convert_file_def convert_file_try_def
        basename_def splitext_def Let_def)

text \<open>
  C10. \<^verbatim>\<open>convert_archive\<close> always returns a list: the empty one when the path is
  missing or the archive cannot be opened, otherwise the output paths of the eligible
  entries up to the first one that fails (none when there is no eligible entry).
\<close>

theorem convert_archive_returns_a_list:
  "convert_archive w zip_path =
     Inr (if path_exists w zip_path
          then (case open_zip w zip_path of
                  Inl e \<Rightarrow> []
                | Inr zip_ref \<Rightarrow>
                    map epub_path (takeWhile (entry_converts w zip_ref) (fb2_files zip_ref)))
          else [])"
  by (simp add: convert_archive_fst convert_archive_try_def fst_convert_entries
        split: sum.splits)

text \<open>
  C3, amended. For an archive that opens, \<^verbatim>\<open>convert_archive\<close> goes through the
  eligible entries in listing order up to the first entry whose reading or conversion
  raises an exception, and returns the output paths of the entries before that one;
  the entry that raised and the ones after it give nothing.
\<close>

theorem convert_archive_stops_at_first_failure:
  assumes "path_exists w zip_path" and "open_zip w zip_path = Inr zip_ref"
  shows "convert_archive w zip_path =
           Inr (map epub_path (takeWhile (entry_converts w zip_ref) (fb2_files zip_ref)))"
  using assms
  by (simp add: convert_archive_fst convert_archive_try_def fst_convert_entries)

theorem convert_archive_stops_at_first_failure_witness:
  "path_exists (damaged ''b.fb2'') ''books.zip''
   \<and> open_zip (damaged ''b.fb2'') ''books.zip'' = Inr (damaged_zip ''b.fb2'')
   \<and> convert_archive (damaged ''b.fb2'') ''books.zip'' = Inr [''sub/a.epub'']"
proof -
  have p: "path_exists (damaged ''b.fb2'') ''books.zip''"
    by (simp add: damaged_def quiet_world_def)
  have z: "open_zip (damaged ''b.fb2'') ''books.zip'' = Inr (damaged_zip ''b.fb2'')"
    by (simp add: damaged_def quiet_world_def)
  have "map epub_path (takeWhile (entry_converts (damaged ''b.fb2'') (damaged_zip ''b.fb2''))
          (fb2_files (damaged_zip ''b.fb2''))) = [''sub/a.epub'']"
    by (simp add: fb2_files_def damaged_zip_def two_books_zip_def endswith_def
          entry_converts_def epub_path_def splitext_def Let_def convert_fb2_to_epub_def
          damaged_def quiet_world_def)
  with convert_archive_stops_at_first_failure [OF p z] p z show ?thesis
    by simp
qed

text \<open>
  Against C3 as stated: the first entry is damaged and reading it raises, the second
  one converts when taken alone, and the list returned is empty.
\<close>

theorem sibling_after_failure_not_converted:
  "filter (entry_converts (damaged ''sub/a.fb2'') (damaged_zip ''sub/a.fb2''))
     (fb2_files (damaged_zip ''sub/a.fb2''))
     = [''b.fb2'']
   \<and> convert_archive (damaged ''sub/a.fb2'') ''books.zip'' = Inr []"
  by (simp add: convert_archive_def convert_archive_try_def fb2_files_def damaged_zip_def
        two_books_zip_def endswith_def entry_converts_def epub_path_def splitext_def Let_def
        convert_fb2_to_epub_def damaged_def quiet_world_def)

text \<open>
  C6, amended. Chapter assembly walks every section below a body, nested ones included:
  a section nested in another section of a body has a separate chapter of its own, at
  a later place among the chapters and under another file name than the chapter of
  the enclosing section, and what the formatter renders for the nested section is also
  part of the content of the enclosing section's chapter.
\<close>

theorem nested_section_is_a_chapter_too:
  assumes "body \<in> set (find_all [''body''] soup)"
      and "outer \<in> set (find_all [''section''] body)"
      and "inner \<in> set (find_all [''section''] outer)"
  shows "\<exists>j k. 1 \<le> j \<and> j < k
           \<and> k \<le> length (filter is_EpubHtml (items (fb2_book w soup)))
           \<and> filter is_EpubHtml (items (fb2_book w soup)) ! (j - 1) = chapter_of j outer
           \<and> filter is_EpubHtml (items (fb2_book w soup)) ! (k - 1) = chapter_of k inner
           \<and> file_name (chapter_of j outer) \<noteq> file_name (chapter_of k inner)
           \<and> sublist (process_section_elements inner) (content (chapter_of j outer))"
proof -
  let ?ws = "walked_sections soup"
  let ?pages = "filter is_EpubHtml (items (fb2_book w soup))"
  from walked_positions [OF assms] obtain p q where
    pq: "p < q" "q < length ?ws" "?ws ! p = outer" "?ws ! q = inner"
    by blast
  have page: "?pages ! i = chapter_of (Suc i) (?ws ! i)" if "i < length ?ws" for i
    using that by (simp add: html_items nth_append nth_enumerate_eq)
  have len: "length ?ws \<le> length ?pages"
    by (simp add: html_items)
  from nested_content [OF assms(3)] obtain ps ss where
    "process_section_elements outer = ps @ process_section_elements inner @ ss"
    by (auto simp: sublist_def)
  then have "content (chapter_of (Suc p) outer)
             = (''<h1>'' @ chapter_title (Suc p) outer @ ''</h1>'' @ ps)
               @ process_section_elements inner @ ss"
    by (simp add: chapter_of_def)
  then have sub: "sublist (process_section_elements inner) (content (chapter_of (Suc p) outer))"
    unfolding sublist_def by blast
  have names: "file_name (chapter_of (Suc p) outer) \<noteq> file_name (chapter_of (Suc q) inner)"
    using pq(1) chapter_file_name_inj [of "Suc p" outer "Suc q" inner] by auto
  have "1 \<le> Suc p" "Suc p < Suc q" "Suc q \<le> length ?pages"
    using pq(1,2) len by simp_all
  moreover have "?pages ! (Suc p - 1) = chapter_of (Suc p) outer"
    using page [of p] pq by simp
  moreover have "?pages ! (Suc q - 1) = chapter_of (Suc q) inner"
    using page [of q] pq by simp
  ultimately show ?thesis
    using names sub by blast
qed

theorem nested_section_is_a_chapter_too_witness:
  "nested_body \<in> set (find_all [''body''] nested_soup)
   \<and> nested_outer \<in> set (find_all [''section''] nested_body)
   \<and> nested_inner \<in> set (find_all [''section''] nested_outer)
   \<and> (\<exists>j k. 1 \<le> j \<and> j < k
         \<and> k \<le> length (filter is_EpubHtml (items (fb2_book quiet_world nested_soup)))
         \<and> filter is_EpubHtml (items (fb2_book quiet_world nested_soup)) ! (j - 1)
             = chapter_of j nested_outer
         \<and> filter is_EpubHtml (items (fb2_book quiet_world nested_soup)) ! (k - 1)
             = chapter_of k nested_inner
         \<and> file_name (chapter_of j nested_outer) \<noteq> file_name (chapter_of k nested_inner)
         \<and> sublist (process_section_elements nested_inner)
               (content (chapter_of j nested_outer)))"
proof -
  have b: "nested_body \<in> set (find_all [''body''] nested_soup)"
    by (simp add: nested_body_def nested_outer_def nested_inner_def nested_soup_def
          nested_roots_def model_defs)
  have o: "nested_outer \<in> set (find_all [''section''] nested_body)"
    by (simp add: nested_body_def nested_outer_def nested_inner_def model_defs)
  have i: "nested_inner \<in> set (find_all [''section''] nested_outer)"
    by (simp add: nested_outer_def nested_inner_def model_defs)
  from nested_section_is_a_chapter_too [OF b o i, of quiet_world] b o i show ?thesis
    by blast
qed

text \<open>
  Against C6 as stated: a body with one section that holds a paragraph and a nested
  section gives two chapters, the second one made from the nested section.
\<close>

theorem nested_section_second_chapter:
  \<open>map file_name (filter is_EpubHtml (items (fb2_book quiet_world nested_soup)))
     = [''chapter_1.xhtml'', ''chapter_2.xhtml'']
   \<and> map content (filter is_EpubHtml (items (fb2_book quiet_world nested_soup)))
     = [''<h1>Chapter 1</h1><p style="text-indent: 1em;">Outer</p><p style="text-indent: 1em;">Inner</p>'',
        ''<h1>Chapter 2</h1><p style="text-indent: 1em;">Inner</p>'']\<close>
  by (simp add: nested_soup_def nested_roots_def model_defs)

text \<open>
  C8, amended. The first \<^verbatim>\<open>binary\<close> node with a JPEG content type decides: if its
  stripped text decodes, the package has the cover image with the decoded bytes and
  the cover page; if decoding raises, the package has no cover item, whatever other
  \<^verbatim>\<open>binary\<close> nodes follow. In both cases the conversion goes on: it builds the book
  and hands it to \<^verbatim>\<open>write_epub\<close>, and it raises only if \<^verbatim>\<open>write_epub\<close> does.
\<close>

theorem cover_decoding:
  assumes "parse_xml w fb2_content = Inr roots"
      and "find_attrs ''binary'' ''content-type'' [''image/jpeg'', ''image/jpg'']
             (BeautifulSoup_object roots) = Some cover_image_tag"
  shows "(case b64decode w (strip (get_text cover_image_tag)) of
            Inr cover_image_data \<Rightarrow>
              filter is_cover_item (items (fb2_book w (BeautifulSoup_object roots)))
              = [EpubCover ''cover.jpg'' cover_image_data, EpubCoverHtml ''cover.jpg'']
          | Inl e \<Rightarrow>
              filter is_cover_item (items (fb2_book w (BeautifulSoup_object roots))) = [])
         \<and> convert_fb2_to_epub w fb2_content output_path
           = exception_of (write_epub w output_path (fb2_book w (BeautifulSoup_object roots)))"
proof -
  have "convert_fb2_to_epub w fb2_content output_path
        = exception_of (write_epub w output_path (fb2_book w (BeautifulSoup_object roots)))"
    by (simp add: convert_fb2_to_epub_def assms(1))
  moreover have "filter is_cover_item (items (fb2_book w (BeautifulSoup_object roots)))
                 = cover_items w (BeautifulSoup_object roots)"
    by (rule cover_item_list)
  ultimately show ?thesis
    by (simp add: cover_items_def assms(2) split: sum.splits)
qed

theorem cover_decoding_witness:
  "parse_xml (cover_world ''aGk='') ''book'' = Inr (cover_roots ''aGk='')
   \<and> filter is_cover_item
        (items (fb2_book (cover_world ''aGk='') (BeautifulSoup_object (cover_roots ''aGk=''))))
      = [EpubCover ''cover.jpg'' ''hi'', EpubCoverHtml ''cover.jpg'']
   \<and> parse_xml (cover_world ''a'') ''book'' = Inr (cover_roots ''a'')
   \<and> filter is_cover_item
        (items (fb2_book (cover_world ''a'') (BeautifulSoup_object (cover_roots ''a''))))
      = []
   \<and> convert_fb2_to_epub (cover_world ''a'') ''book'' ''book.epub'' = None"
proof -
  have p: "parse_xml (cover_world payload) ''book'' = Inr (cover_roots payload)" for payload
    by (simp add: cover_world_def)
  have f: "find_attrs ''binary'' ''content-type'' [''image/jpeg'', ''image/jpg'']
             (BeautifulSoup_object (cover_roots payload))
           = Some ([''FictionBook'', ''[document]''],
                   Tag ''binary'' [(''id'', ''cover.jpg''), (''content-type'', ''image/jpeg'')]
                     [NavigableString payload])" for payload
    by (simp add: cover_roots_def model_defs)
  have good: "b64decode (cover_world ''aGk='') (strip (get_text ([''FictionBook'', ''[document]''],
                   Tag ''binary'' [(''id'', ''cover.jpg''), (''content-type'', ''image/jpeg'')]
                     [NavigableString ''aGk='']))) = Inr ''hi''"
    by (simp add: cover_world_def quiet_world_def model_defs)
  have bad: "b64decode (cover_world ''a'') (strip (get_text ([''FictionBook'', ''[document]''],
                   Tag ''binary'' [(''id'', ''cover.jpg''), (''content-type'', ''image/jpeg'')]
                     [NavigableString ''a'']))) = Inl (Raised ''binascii.Error'')"
    by (simp add: cover_world_def quiet_world_def model_defs)
  have wr: "write_epub (cover_world ''a'') ''book.epub'' b = Written" for b
    by (simp add: cover_world_def quiet_world_def)
  from cover_decoding [OF p f, of "''aGk=''" "''book.epub''"]
       cover_decoding [OF p f, of "''a''" "''book.epub''"]
  show ?thesis
    by (simp add: good bad p wr)
qed

text \<open>
  Against C8 as stated: the document has a JPEG \<^verbatim>\<open>binary\<close> node whose payload
  decodes, but it is the second one, the payload of the first one does not decode, and
  the package has no cover item.
\<close>

theorem valid_cover_after_corrupt_one_ignored:
  "second_cover \<in> set (find_all [''binary''] two_covers_soup)
   \<and> get second_cover ''content-type'' [] = ''image/jpeg''
   \<and> b64decode quiet_world (strip (get_text second_cover)) = Inr ''hi''
   \<and> filter is_cover_item (items (fb2_book quiet_world two_covers_soup)) = []"
proof -
  have "cover_items quiet_world two_covers_soup = []"
    by (simp add: cover_items_def two_covers_soup_def second_cover_def quiet_world_def
          model_defs)
  then have "filter is_cover_item (items (fb2_book quiet_world two_covers_soup)) = []"
    by (simp add: cover_item_list)
  moreover have "second_cover \<in> set (find_all [''binary''] two_covers_soup)"
    by (simp add: two_covers_soup_def second_cover_def model_defs)
  moreover have "get second_cover ''content-type'' [] = ''image/jpeg''"
    by (simp add: second_cover_def get_def)
  moreover have "b64decode quiet_world (strip (get_text second_cover)) = Inr ''hi''"
    by (simp add: second_cover_def quiet_world_def model_defs)
  ultimately show ?thesis
    by blast
qed

end
